theory Spec2Isabelle
  imports Main "HOL-Library.List_Lexorder" "HOL-Library.Char_ord" "HOL-Library.Multiset"
begin

section \<open>Data model: the booking_slots table\<close>

text \<open>
  The slot reservation logic lives in the hook \<open>useProviderAvailability\<close> (the second
  document of \<open>src/pages/Cart.tsx\<close>) and in the page \<open>src/pages/TimeSelection.tsx\<close>.
  A row of \<open>booking_slots\<close> is modelled with the columns the code reads or writes:
  the fields of the hook's \<open>BookingSlot\<close> interface (with the joined \<open>time_slot\<close>
  that the select embeds) and the columns \<open>held_by\<close>, \<open>hold_expires_at\<close> and
  \<open>booking_id\<close> of the update payloads and of the page's interface.

  Representation choices: a calendar date (\<open>'YYYY-MM-DD'\<close>) is its day number, and an
  instant (\<open>Date.now()\<close>, an ISO timestamp) is its number of milliseconds since the
  epoch; both encodings are order preserving bijections on the values the code handles.
  A nullable column is an \<open>option\<close>.
\<close>

datatype slot_status = Available | Held | Booked | Blocked

record TimeSlot =
  id_time_slot :: string
  slot_name :: string
  start_time :: string
  end_time :: string
  display_order :: int

record BookingSlot =
  id_slot :: string
  provider_id :: string
  service_id :: "string option"
  date :: int
  time_slot_id :: string
  status :: slot_status
  time_slot :: TimeSlot
  held_by :: "string option"
  hold_expires_at :: "int option"
  booking_id :: "string option"

text \<open>
  The store is the external collaborator. Besides the table it carries a ghost log of the
  requests the client issued, oldest first, so that statements about which calls are made,
  and in which order, can be written down.
\<close>

datatype request =
    Select_available string int
  | Update_hold string string int
  | Update_release string string
  | Rpc_generate_provider_slots string int int

record Store =
  booking_slots :: "BookingSlot list"
  requests :: "request list"

section \<open>The store client\<close>

text \<open>
  A call of the Supabase client resolves to \<open>{ data, error }\<close>: \<open>error\<close> is set exactly
  when the request failed. Whether a request reaches the store is the environment's choice,
  passed as the first argument of every call.

  \<open>.update(patch).eq(...).eq(...)\<close> is one conditional statement executed by the store:
  every row matching all filters is patched, all other rows are left alone, and a statement
  that matches no row is not an error.
  \<open>.select(...).eq(...).order(key)\<close> returns the matching rows in ascending order of
  the key the query names; rows with equal keys keep their table order.
\<close>

datatype 'a PostgrestResponse = Data 'a | Error string

definition update_eq ::
  "bool \<Rightarrow> (BookingSlot \<Rightarrow> BookingSlot) \<Rightarrow> (BookingSlot \<Rightarrow> bool) \<Rightarrow> BookingSlot list
     \<Rightarrow> unit PostgrestResponse \<times> BookingSlot list" where
  "update_eq reachable patch matches rows =
     (if reachable then (Data (), map (\<lambda>r. if matches r then patch r else r) rows)
      else (Error ''Failed to fetch'', rows))"

definition select_eq_order ::
  "bool \<Rightarrow> (BookingSlot \<Rightarrow> bool) \<Rightarrow> (BookingSlot \<Rightarrow> int) \<Rightarrow> BookingSlot list
     \<Rightarrow> BookingSlot list PostgrestResponse" where
  "select_eq_order reachable matches key rows =
     (if reachable then Data (sort_key key (filter matches rows))
      else Error ''Failed to fetch'')"

text \<open>The number of records a conditional update touches; the client never sees it.\<close>

definition rows_affected :: "(BookingSlot \<Rightarrow> bool) \<Rightarrow> BookingSlot list \<Rightarrow> nat" where
  "rows_affected matches rows = length (filter matches rows)"

section \<open>The hook useProviderAvailability\<close>

text \<open>
  \<open>holdSlot\<close>: reads the clock, issues the update guarded by \<open>id = slotId\<close> and
  \<open>status = 'available'\<close>, throws on \<open>error\<close> into its own \<open>catch\<close> (which returns
  \<open>false\<close>), and returns \<open>true\<close> otherwise.
\<close>

definition hold_matches :: "string \<Rightarrow> BookingSlot \<Rightarrow> bool" where
  "hold_matches slotId r = (id_slot r = slotId \<and> status r = Available)"

definition holdSlot :: "bool \<Rightarrow> int \<Rightarrow> string \<Rightarrow> string \<Rightarrow> Store \<Rightarrow> bool \<times> Store" where
  "holdSlot reachable now slotId userId st =
     (let holdExpiresAt = now + 7 * 60 * 1000;
          (resp, rows) = update_eq reachable
             (\<lambda>r. r\<lparr>status := Held, held_by := Some userId,
                     hold_expires_at := Some holdExpiresAt\<rparr>)
             (hold_matches slotId) (booking_slots st);
          st' = st\<lparr>booking_slots := rows,
                   requests := requests st @ [Update_hold slotId userId holdExpiresAt]\<rparr>
      in case resp of Error e \<Rightarrow> (False, st') | Data u \<Rightarrow> (True, st'))"

text \<open>
  \<open>releaseSlot\<close>: the update guarded by \<open>id = slotId\<close> and \<open>held_by = userId\<close>.
\<close>

definition release_matches :: "string \<Rightarrow> string \<Rightarrow> BookingSlot \<Rightarrow> bool" where
  "release_matches slotId userId r = (id_slot r = slotId \<and> held_by r = Some userId)"

definition releaseSlot :: "bool \<Rightarrow> string \<Rightarrow> string \<Rightarrow> Store \<Rightarrow> bool \<times> Store" where
  "releaseSlot reachable slotId userId st =
     (let (resp, rows) = update_eq reachable
             (\<lambda>r. r\<lparr>status := Available, held_by := None, hold_expires_at := None\<rparr>)
             (release_matches slotId userId) (booking_slots st);
          st' = st\<lparr>booking_slots := rows,
                   requests := requests st @ [Update_release slotId userId]\<rparr>
      in case resp of Error e \<Rightarrow> (False, st') | Data u \<Rightarrow> (True, st'))"

text \<open>
  \<open>getAvailableSlots\<close>: the select filtered by provider, date and
  \<open>status = 'available'\<close>, ordered by \<open>time_slot.display_order\<close>; on \<open>error\<close> it throws
  into its own \<open>catch\<close>, which logs to the console and returns the empty array.
\<close>

definition getAvailableSlots ::
  "bool \<Rightarrow> string \<Rightarrow> int \<Rightarrow> Store \<Rightarrow> BookingSlot list \<times> Store" where
  "getAvailableSlots reachable providerId dateString st =
     (let resp = select_eq_order reachable
             (\<lambda>r. provider_id r = providerId \<and> date r = dateString \<and> status r = Available)
             (\<lambda>r. display_order (time_slot r)) (booking_slots st);
          st' = st\<lparr>requests := requests st @ [Select_available providerId dateString]\<rparr>
      in case resp of Error e \<Rightarrow> ([], st') | Data rows \<Rightarrow> (rows, st'))"

section \<open>The page TimeSelection\<close>

text \<open>
  The component state (\<open>useState\<close>), the values it gets from \<open>useAuth\<close>,
  \<open>useParams\<close> and the router state, and a ghost log of the toasts shown and the
  navigations made, oldest first. \<open>user\<close> is the id of the signed-in user.
\<close>

datatype effect = Toast string | Navigate string BookingSlot

record Page =
  user :: "string option"
  providerId :: "string option"
  selectedDate :: "int option"
  availableSlots :: "BookingSlot list"
  selectedSlot :: "BookingSlot option"
  heldSlot :: "BookingSlot option"
  loading :: bool
  effects :: "effect list"

text \<open>
  A handler makes several store calls; the environment decides for each of them whether it
  reaches the store.
\<close>

datatype call_site = Release_call | Hold_call | First_query | Second_query

text \<open>
  \<open>fetchAvailableSlots\<close>: returns at once without a date or a provider. Otherwise it
  queries; when the result is empty it computes \<open>endDate\<close> 14 days after the selected
  date, but the generation call itself is commented out in the source
  (\<open>TODO: Re-enable slot generation when function is available\<close>), so nothing is sent
  before the second query. \<open>getAvailableSlots\<close> never throws, so the \<open>catch\<close> of this
  function (the toast \<open>Failed to fetch available slots\<close>) has no path leading to it;
  \<open>finally\<close> resets \<open>loading\<close>.
\<close>

definition fetchAvailableSlots :: "(call_site \<Rightarrow> bool) \<Rightarrow> Store \<times> Page \<Rightarrow> Store \<times> Page" where
  "fetchAvailableSlots net w =
     (let (st, pg) = w in
      case selectedDate pg of
        None \<Rightarrow> (st, pg)
      | Some d \<Rightarrow>
         (case providerId pg of
            None \<Rightarrow> (st, pg)
          | Some p \<Rightarrow>
             (let (slots, st1) = getAvailableSlots (net First_query) p d st in
              if length slots = 0 then
                (let endDate = d + 14;
                     (newSlots, st2) = getAvailableSlots (net Second_query) p d st1
                 in (st2, pg\<lparr>availableSlots := newSlots, loading := False\<rparr>))
              else (st1, pg\<lparr>availableSlots := slots, loading := False\<rparr>))))"

text \<open>
  \<open>handleSlotSelect\<close>: without a user it only shows a toast. Otherwise it releases the
  previously held slot when there is one with another id (the result of \<open>releaseSlot\<close> is
  not looked at), then calls \<open>holdSlot\<close>; on \<open>true\<close> it records the slot as selected and
  held, on \<open>false\<close> it shows \<open>Slot Unavailable\<close> and refreshes the list, leaving
  \<open>selectedSlot\<close> and \<open>heldSlot\<close> as they were. \<open>now\<close> is the clock as \<open>holdSlot\<close>
  reads it.
\<close>

definition handleSlotSelect ::
  "(call_site \<Rightarrow> bool) \<Rightarrow> int \<Rightarrow> BookingSlot \<Rightarrow> Store \<times> Page \<Rightarrow> Store \<times> Page" where
  "handleSlotSelect net now slot w =
     (let (st, pg) = w in
      case user pg of
        None \<Rightarrow> (st, pg\<lparr>effects := effects pg @ [Toast ''Authentication Required'']\<rparr>)
      | Some uid \<Rightarrow>
         (let st1 = (case heldSlot pg of
                       None \<Rightarrow> st
                     | Some h \<Rightarrow>
                         if id_slot h \<noteq> id_slot slot
                         then snd (releaseSlot (net Release_call) (id_slot h) uid st)
                         else st);
              (success, st2) = holdSlot (net Hold_call) now (id_slot slot) uid st1
          in if success then
               (st2, pg\<lparr>selectedSlot := Some slot, heldSlot := Some slot,
                        effects := effects pg @ [Toast ''Slot Reserved'']\<rparr>)
             else
               fetchAvailableSlots net
                 (st2, pg\<lparr>effects := effects pg @ [Toast ''Slot Unavailable'']\<rparr>)))"

text \<open>
  \<open>handleProceedToPayment\<close>: navigates to the cart with the held slot when
  \<open>selectedSlot\<close> and \<open>heldSlot\<close> are both set; it reads neither the clock nor the store.
\<close>

definition handleProceedToPayment :: "Page \<Rightarrow> Page" where
  "handleProceedToPayment pg =
     (case selectedSlot pg of
        None \<Rightarrow> pg
      | Some s \<Rightarrow>
         (case heldSlot pg of
            None \<Rightarrow> pg
          | Some h \<Rightarrow> pg\<lparr>effects := effects pg @ [Navigate ''/cart'' h]\<rparr>))"

text \<open>
  \<open>handleSlotExpired\<close>, the callback given to the countdown: with a held slot and a user
  it releases the slot, clears \<open>heldSlot\<close> and \<open>selectedSlot\<close>, refreshes the list and
  shows \<open>Slot Expired\<close>.
\<close>

definition handleSlotExpired :: "(call_site \<Rightarrow> bool) \<Rightarrow> Store \<times> Page \<Rightarrow> Store \<times> Page" where
  "handleSlotExpired net w =
     (let (st, pg) = w in
      case heldSlot pg of
        None \<Rightarrow> (st, pg)
      | Some h \<Rightarrow>
         (case user pg of
            None \<Rightarrow> (st, pg)
          | Some uid \<Rightarrow>
             (let st1 = snd (releaseSlot (net Release_call) (id_slot h) uid st);
                  (st2, pg2) = fetchAvailableSlots net
                                 (st1, pg\<lparr>heldSlot := None, selectedSlot := None\<rparr>)
              in (st2, pg2\<lparr>effects := effects pg2 @ [Toast ''Slot Expired'']\<rparr>))))"

text \<open>
  The \<open>expiresAt\<close> property the page gives to \<open>SlotCountdownTimer\<close>: the countdown is
  rendered only while \<open>heldSlot\<close> is set, and the expression
  \<open>new Date(Date.now() + 7 * 60 * 1000)\<close> is evaluated by every render, at the time of
  that render.
\<close>

definition expiresAt :: "int \<Rightarrow> Page \<Rightarrow> int option" where
  "expiresAt renderNow pg =
     (case heldSlot pg of None \<Rightarrow> None | Some h \<Rightarrow> Some (renderNow + 7 * 60 * 1000))"

section \<open>The function verify-payment\<close>

text \<open>
  The handler answers a preflight, and otherwise throws (status 500) when the
  authorization header is missing, the token names no user, the body has no session id,
  the Stripe key is not configured or the session cannot be retrieved; a retrieved session
  gives status 200 when its \<open>payment_status\<close> is \<open>paid\<close> and status 400 otherwise.
  \<open>getUser\<close> and \<open>retrieve\<close> are the answers of the identity service (for the token
  of the given header; \<open>None\<close> when it reports an error or no user) and of the payment
  provider (\<open>None\<close> when the session cannot be retrieved, otherwise its
  \<open>payment_status\<close>). An absent or empty value is falsy, as in the source's \<open>!x\<close>.
  The handler never reads \<open>booking_slots\<close>.
\<close>

datatype verify_response = Preflight | Paid_200 | Not_paid_400 | Failed_500

definition falsy :: "string option \<Rightarrow> bool" where
  "falsy v = (v = None \<or> v = Some [])"

definition verify_payment ::
  "string \<Rightarrow> string option \<Rightarrow> (string \<Rightarrow> string option) \<Rightarrow> string option \<Rightarrow> string option
     \<Rightarrow> (string \<Rightarrow> string option) \<Rightarrow> verify_response" where
  "verify_payment method authHeader getUser sessionId stripeSecretKey retrieve =
     (if method = ''OPTIONS'' then Preflight
      else case authHeader of
        None \<Rightarrow> Failed_500
      | Some hdr \<Rightarrow>
         if hdr = [] then Failed_500
         else (case getUser hdr of
            None \<Rightarrow> Failed_500
          | Some usr \<Rightarrow>
             if falsy sessionId then Failed_500
             else if falsy stripeSecretKey then Failed_500
             else (case retrieve (the sessionId) of
                None \<Rightarrow> Failed_500
              | Some payment_status \<Rightarrow>
                 if payment_status = ''paid'' then Paid_200 else Not_paid_400)))"

section \<open>The data invariant of a slot\<close>

text \<open>
  Holder and deadline are both present or both absent, and they are present exactly when
  the status is \<open>held\<close>.
\<close>

definition slot_inv :: "BookingSlot \<Rightarrow> bool" where
  "slot_inv r = ((held_by r \<noteq> None) = (status r = Held) \<and>
                 (hold_expires_at r \<noteq> None) = (status r = Held))"

definition store_inv :: "Store \<Rightarrow> bool" where
  "store_inv st = list_all slot_inv (booking_slots st)"

section \<open>The holds of one user\<close>

text \<open>
  The rows a user holds in the store, and the link between the page and the store within
  one booking flow: every row the user holds is the slot the page remembers as
  \<open>heldSlot\<close>.
\<close>

definition holds :: "string \<Rightarrow> Store \<Rightarrow> BookingSlot list" where
  "holds uid st = filter (\<lambda>r. held_by r = Some uid) (booking_slots st)"

definition flow_inv :: "string \<Rightarrow> Store \<Rightarrow> Page \<Rightarrow> bool" where
  "flow_inv uid st pg =
     list_all (\<lambda>r. case heldSlot pg of None \<Rightarrow> False | Some h \<Rightarrow> id_slot r = id_slot h)
       (holds uid st)"

section \<open>Example data\<close>

definition morning :: TimeSlot where
  "morning = \<lparr>id_time_slot = ''t1'', slot_name = ''Morning'', start_time = ''09:00:00'',
     end_time = ''10:00:00'', display_order = 2\<rparr>"

definition afternoon :: TimeSlot where
  "afternoon = \<lparr>id_time_slot = ''t2'', slot_name = ''Afternoon'', start_time = ''15:00:00'',
     end_time = ''16:00:00'', display_order = 1\<rparr>"

definition slot_a :: BookingSlot where
  "slot_a = \<lparr>id_slot = ''s1'', provider_id = ''p1'', service_id = None, date = 20148,
     time_slot_id = ''t1'', status = Available, time_slot = morning, held_by = None,
     hold_expires_at = None, booking_id = None\<rparr>"

definition slot_b :: BookingSlot where
  "slot_b = \<lparr>id_slot = ''s2'', provider_id = ''p1'', service_id = None, date = 20148,
     time_slot_id = ''t2'', status = Available, time_slot = afternoon, held_by = None,
     hold_expires_at = None, booking_id = None\<rparr>"

definition store0 :: Store where
  "store0 = \<lparr>booking_slots = [slot_a, slot_b], requests = []\<rparr>"

definition page0 :: Page where
  "page0 = \<lparr>user = Some ''alice'', providerId = Some ''p1'', selectedDate = Some 20148,
     availableSlots = [slot_a, slot_b], selectedSlot = None, heldSlot = None,
     loading = False, effects = []\<rparr>"

definition all_up :: "call_site \<Rightarrow> bool" where
  "all_up c = True"

definition hold_down :: "call_site \<Rightarrow> bool" where
  "hold_down c = (c \<noteq> Hold_call)"

definition slot_a_held :: BookingSlot where
  "slot_a_held = slot_a\<lparr>status := Held, held_by := Some ''alice'',
     hold_expires_at := Some 421000\<rparr>"

definition store_held :: Store where
  "store_held = \<lparr>booking_slots = [slot_a_held, slot_b], requests = []\<rparr>"

definition slot_b_booked :: BookingSlot where
  "slot_b_booked = slot_b\<lparr>status := Booked, booking_id := Some ''b1''\<rparr>"

definition store_booked :: Store where
  "store_booked = \<lparr>booking_slots = [slot_a_held, slot_b_booked], requests = []\<rparr>"

definition store_empty :: Store where
  "store_empty = \<lparr>booking_slots = [], requests = []\<rparr>"

definition page_held :: Page where
  "page_held = page0\<lparr>selectedSlot := Some slot_a, heldSlot := Some slot_a\<rparr>"

definition page_bob :: Page where
  "page_bob = page0\<lparr>user := Some ''bob''\<rparr>"

definition all_down :: "call_site \<Rightarrow> bool" where
  "all_down c = False"

definition release_down :: "call_site \<Rightarrow> bool" where
  "release_down c = (c \<noteq> Release_call)"

section \<open>Properties of the conditional updates\<close>

lemma update_eq_reachable:
  "update_eq True patch matches rows =
     (Data (), map (\<lambda>r. if matches r then patch r else r) rows)"
  by (simp add: update_eq_def)

lemma update_eq_unreachable:
  "update_eq False patch matches rows = (Error ''Failed to fetch'', rows)"
  by (simp add: update_eq_def)

lemma holdSlot_reachable:
  "holdSlot True now slotId userId st =
     (True, st\<lparr>booking_slots :=
                  map (\<lambda>r. if hold_matches slotId r
                            then r\<lparr>status := Held, held_by := Some userId,
                                    hold_expires_at := Some (now + 420000)\<rparr>
                            else r) (booking_slots st),
                requests := requests st @ [Update_hold slotId userId (now + 420000)]\<rparr>)"
  by (simp add: holdSlot_def update_eq_reachable Let_def)

lemma holdSlot_unreachable:
  "holdSlot False now slotId userId st =
     (False, st\<lparr>booking_slots := booking_slots st,
                 requests := requests st @ [Update_hold slotId userId (now + 420000)]\<rparr>)"
  by (simp add: holdSlot_def update_eq_unreachable Let_def)

text \<open>
  C3. \<open>holdSlot\<close> is one conditional update: when the request reaches the store, every
  row with the given id whose status is \<open>available\<close> at the time of the update becomes
  \<open>held\<close> with holder \<open>userId\<close> and deadline \<open>now\<close> + 7 minutes (420000 ms), every other
  row (another id, or a status other than \<open>available\<close>) is left exactly as it was, and
  the only request issued is that guarded update, with no read before it.
\<close>

theorem holdSlot_conditional_transition:
  assumes "holdSlot True now slotId userId st = (ok, st')"
  shows "ok \<and> length (booking_slots st') = length (booking_slots st) \<and>
         requests st' = requests st @ [Update_hold slotId userId (now + 420000)] \<and>
         (\<forall>i < length (booking_slots st).
            (id_slot (booking_slots st ! i) = slotId \<and> status (booking_slots st ! i) = Available
               \<longrightarrow> booking_slots st' ! i =
                     (booking_slots st ! i)\<lparr>status := Held, held_by := Some userId,
                        hold_expires_at := Some (now + 420000)\<rparr>) \<and>
            (id_slot (booking_slots st ! i) \<noteq> slotId \<or> status (booking_slots st ! i) \<noteq> Available
               \<longrightarrow> booking_slots st' ! i = booking_slots st ! i))"
proof -
  from assms have ok: "ok" and st': "st' = snd (holdSlot True now slotId userId st)"
    by (simp_all add: holdSlot_reachable)
  show ?thesis
    using ok by (simp add: st' holdSlot_reachable hold_matches_def)
qed

theorem holdSlot_conditional_transition_witness:
  "fst (holdSlot True 1000 ''s1'' ''alice'' store0) \<and>
   booking_slots (snd (holdSlot True 1000 ''s1'' ''alice'' store0)) =
     [slot_a\<lparr>status := Held, held_by := Some ''alice'', hold_expires_at := Some 421000\<rparr>,
      slot_b]"
proof -
  obtain ok st' where h: "holdSlot True 1000 ''s1'' ''alice'' store0 = (ok, st')"
    by (cases "holdSlot True 1000 ''s1'' ''alice'' store0")
  have n: "booking_slots store0 = [slot_a, slot_b]"
    by (simp add: store0_def)
  from holdSlot_conditional_transition [OF h]
  have "ok" and len: "length (booking_slots st') = 2"
    and r0: "booking_slots st' ! 0 =
       slot_a\<lparr>status := Held, held_by := Some ''alice'', hold_expires_at := Some 421000\<rparr>"
    and r1: "booking_slots st' ! 1 = slot_b"
    by (simp_all add: n slot_a_def slot_b_def)
  from len r0 r1 have "booking_slots st' =
     [slot_a\<lparr>status := Held, held_by := Some ''alice'', hold_expires_at := Some 421000\<rparr>,
      slot_b]"
    by (simp add: list_eq_iff_nth_eq less_Suc_eq numeral_2_eq_2)
  with \<open>ok\<close> h show ?thesis by simp
qed

section \<open>Release\<close>

lemma releaseSlot_reachable:
  "releaseSlot True slotId userId st =
     (True, st\<lparr>booking_slots :=
                  map (\<lambda>r. if release_matches slotId userId r
                            then r\<lparr>status := Available, held_by := None,
                                    hold_expires_at := None\<rparr>
                            else r) (booking_slots st),
                requests := requests st @ [Update_release slotId userId]\<rparr>)"
  by (simp add: releaseSlot_def update_eq_reachable)

lemma releaseSlot_unreachable:
  "releaseSlot False slotId userId st =
     (False, st\<lparr>booking_slots := booking_slots st,
                 requests := requests st @ [Update_release slotId userId]\<rparr>)"
  by (simp add: releaseSlot_def update_eq_unreachable)

lemma release_twice_rows:
  "booking_slots (snd (releaseSlot True slotId userId (snd (releaseSlot True slotId userId st))))
     = booking_slots (snd (releaseSlot True slotId userId st))"
  by (simp add: releaseSlot_reachable release_matches_def)

text \<open>
  C5. \<open>releaseSlot\<close> is one update guarded by \<open>id = slotId\<close> and \<open>held_by = userId\<close>:
  a row of that id held by that user becomes \<open>available\<close> with holder and deadline
  cleared (and, under the data invariant of a slot, such a row was \<open>held\<close>); a row
  of another id or with another holder is untouched; under the data invariant a row that
  is \<open>available\<close> or \<open>booked\<close> has no holder, so releasing it changes nothing and is not
  an error; a repeated call returns the same result and leaves the table as the first
  call left it.
\<close>

theorem releaseSlot_guarded_idempotent:
  assumes "releaseSlot True slotId userId st = (ok, st')"
  shows "ok \<and> length (booking_slots st') = length (booking_slots st) \<and>
         (\<forall>i < length (booking_slots st).
            (id_slot (booking_slots st ! i) = slotId \<and> held_by (booking_slots st ! i) = Some userId
               \<longrightarrow> booking_slots st' ! i =
                     (booking_slots st ! i)\<lparr>status := Available, held_by := None,
                        hold_expires_at := None\<rparr>) \<and>
            (id_slot (booking_slots st ! i) \<noteq> slotId \<or> held_by (booking_slots st ! i) \<noteq> Some userId
               \<longrightarrow> booking_slots st' ! i = booking_slots st ! i) \<and>
            (slot_inv (booking_slots st ! i) \<and> held_by (booking_slots st ! i) = Some userId
               \<longrightarrow> status (booking_slots st ! i) = Held) \<and>
            (slot_inv (booking_slots st ! i) \<and>
               (status (booking_slots st ! i) = Available \<or> status (booking_slots st ! i) = Booked)
               \<longrightarrow> booking_slots st' ! i = booking_slots st ! i)) \<and>
         fst (releaseSlot True slotId userId st') = ok \<and>
         booking_slots (snd (releaseSlot True slotId userId st')) = booking_slots st'"
proof -
  from assms have ok: "ok" and st': "st' = snd (releaseSlot True slotId userId st)"
    by (simp_all add: releaseSlot_reachable)
  have again: "booking_slots (snd (releaseSlot True slotId userId st')) = booking_slots st'"
    unfolding st' by (rule release_twice_rows)
  have rows: "booking_slots st' =
      map (\<lambda>r. if release_matches slotId userId r
                then r\<lparr>status := Available, held_by := None, hold_expires_at := None\<rparr>
                else r) (booking_slots st)"
    by (simp add: st' releaseSlot_reachable)
  have pointwise: "\<forall>i < length (booking_slots st).
            (id_slot (booking_slots st ! i) = slotId \<and> held_by (booking_slots st ! i) = Some userId
               \<longrightarrow> booking_slots st' ! i =
                     (booking_slots st ! i)\<lparr>status := Available, held_by := None,
                        hold_expires_at := None\<rparr>) \<and>
            (id_slot (booking_slots st ! i) \<noteq> slotId \<or> held_by (booking_slots st ! i) \<noteq> Some userId
               \<longrightarrow> booking_slots st' ! i = booking_slots st ! i) \<and>
            (slot_inv (booking_slots st ! i) \<and> held_by (booking_slots st ! i) = Some userId
               \<longrightarrow> status (booking_slots st ! i) = Held) \<and>
            (slot_inv (booking_slots st ! i) \<and>
               (status (booking_slots st ! i) = Available \<or> status (booking_slots st ! i) = Booked)
               \<longrightarrow> booking_slots st' ! i = booking_slots st ! i)"
    by (auto simp add: rows release_matches_def slot_inv_def)
  from ok again pointwise show ?thesis
    by (simp add: rows releaseSlot_reachable)
qed

theorem releaseSlot_guarded_idempotent_witness:
  "fst (releaseSlot True ''s1'' ''alice'' store_held) \<and>
   booking_slots (snd (releaseSlot True ''s1'' ''alice'' store_held)) = [slot_a, slot_b] \<and>
   booking_slots (snd (releaseSlot True ''s1'' ''alice''
      (snd (releaseSlot True ''s1'' ''alice'' store_held)))) = [slot_a, slot_b] \<and>
   booking_slots (snd (releaseSlot True ''s2'' ''alice'' store_held)) = booking_slots store_held \<and>
   fst (releaseSlot True ''s2'' ''alice'' store_booked) \<and>
   booking_slots (snd (releaseSlot True ''s2'' ''alice'' store_booked)) =
     [slot_a_held, slot_b_booked]"
proof -
  obtain ok st' where h: "releaseSlot True ''s1'' ''alice'' store_held = (ok, st')"
    by (cases "releaseSlot True ''s1'' ''alice'' store_held")
  obtain ok2 st2 where h2: "releaseSlot True ''s2'' ''alice'' store_held = (ok2, st2)"
    by (cases "releaseSlot True ''s2'' ''alice'' store_held")
  obtain ok3 st3 where h3: "releaseSlot True ''s2'' ''alice'' store_booked = (ok3, st3)"
    by (cases "releaseSlot True ''s2'' ''alice'' store_booked")
  have n: "booking_slots store_held = [slot_a_held, slot_b]"
    by (simp add: store_held_def)
  have nb: "booking_slots store_booked = [slot_a_held, slot_b_booked]"
    by (simp add: store_booked_def)
  have inv_booked: "slot_inv slot_b_booked \<and> status slot_b_booked = Booked"
    by (simp add: slot_inv_def slot_b_booked_def slot_b_def)
  from releaseSlot_guarded_idempotent [OF h]
  have "ok" and len: "length (booking_slots st') = 2"
    and r0: "booking_slots st' ! 0 = slot_a"
    and r1: "booking_slots st' ! 1 = slot_b"
    and again: "booking_slots (snd (releaseSlot True ''s1'' ''alice'' st')) = booking_slots st'"
    by (simp_all add: n slot_a_held_def slot_a_def slot_b_def)
  from len r0 r1 have rows: "booking_slots st' = [slot_a, slot_b]"
    by (simp add: list_eq_iff_nth_eq less_Suc_eq numeral_2_eq_2)
  from releaseSlot_guarded_idempotent [OF h2]
  have len2: "length (booking_slots st2) = 2"
    and q0: "booking_slots st2 ! 0 = slot_a_held"
    and q1: "booking_slots st2 ! 1 = slot_b"
    by (simp_all add: n slot_a_held_def slot_a_def slot_b_def)
  from len2 q0 q1 have rows2: "booking_slots st2 = booking_slots store_held"
    by (simp add: n list_eq_iff_nth_eq less_Suc_eq numeral_2_eq_2)
  from releaseSlot_guarded_idempotent [OF h3]
  have "ok3" and len3: "length (booking_slots st3) = 2"
    and p0: "booking_slots st3 ! 0 = slot_a_held"
    by (simp_all add: nb slot_a_held_def slot_a_def)
  from releaseSlot_guarded_idempotent [OF h3] inv_booked
  have p1: "booking_slots st3 ! 1 = slot_b_booked"
    by (simp add: nb)
  from len3 p0 p1 have rows3: "booking_slots st3 = [slot_a_held, slot_b_booked]"
    by (simp add: list_eq_iff_nth_eq less_Suc_eq numeral_2_eq_2)
  from \<open>ok\<close> \<open>ok3\<close> rows again rows2 rows3 h h2 h3 show ?thesis by simp
qed

section \<open>The data invariant is preserved\<close>

lemma slot_inv_hold_patch:
  "slot_inv (r\<lparr>status := Held, held_by := Some u, hold_expires_at := Some d\<rparr>)"
  by (simp add: slot_inv_def)

lemma slot_inv_release_patch:
  "slot_inv (r\<lparr>status := Available, held_by := None, hold_expires_at := None\<rparr>)"
  by (simp add: slot_inv_def)

lemma list_all_patch:
  "list_all P rows \<Longrightarrow> (\<And>r. P (patch r)) \<Longrightarrow>
     list_all P (map (\<lambda>r. if matches r then patch r else r) rows)"
  by (induction rows) simp_all

lemma store_inv_holdSlot:
  "store_inv st \<Longrightarrow> store_inv (snd (holdSlot reachable now slotId userId st))"
proof (cases reachable)
  case True
  assume "store_inv st"
  then show ?thesis
    by (simp add: True holdSlot_reachable store_inv_def list_all_patch slot_inv_hold_patch)
next
  case False
  assume "store_inv st"
  then show ?thesis
    by (simp add: False holdSlot_unreachable store_inv_def)
qed

lemma store_inv_releaseSlot:
  "store_inv st \<Longrightarrow> store_inv (snd (releaseSlot reachable slotId userId st))"
proof (cases reachable)
  case True
  assume "store_inv st"
  then show ?thesis
    by (simp add: True releaseSlot_reachable store_inv_def list_all_patch slot_inv_release_patch)
next
  case False
  assume "store_inv st"
  then show ?thesis
    by (simp add: False releaseSlot_unreachable store_inv_def)
qed

lemma getAvailableSlots_rows:
  "booking_slots (snd (getAvailableSlots reachable p d st)) = booking_slots st"
  by (simp add: getAvailableSlots_def Let_def split: PostgrestResponse.splits)

lemma fetchAvailableSlots_rows:
  "booking_slots (fst (fetchAvailableSlots net (st, pg))) = booking_slots st"
  by (simp add: fetchAvailableSlots_def Let_def getAvailableSlots_rows
      split: option.splits prod.splits)
     (metis getAvailableSlots_rows snd_conv)

lemma store_inv_rows: "booking_slots st' = booking_slots st \<Longrightarrow> store_inv st' = store_inv st"
  by (simp add: store_inv_def)

lemma handleSlotSelect_rows:
  "user pg = Some uid \<Longrightarrow>
   booking_slots (fst (handleSlotSelect net now slot (st, pg))) =
   booking_slots (snd (holdSlot (net Hold_call) now (id_slot slot) uid
     (case heldSlot pg of
        None \<Rightarrow> st
      | Some h \<Rightarrow> if id_slot h \<noteq> id_slot slot
                  then snd (releaseSlot (net Release_call) (id_slot h) uid st) else st)))"
  by (simp add: handleSlotSelect_def Let_def fetchAvailableSlots_rows split: prod.splits)

lemma handleSlotSelect_no_user:
  "user pg = None \<Longrightarrow> fst (handleSlotSelect net now slot (st, pg)) = st"
  by (simp add: handleSlotSelect_def)

lemma store_inv_handleSlotSelect:
  assumes "store_inv st"
  shows "store_inv (fst (handleSlotSelect net now slot (st, pg)))"
proof (cases "user pg")
  case None
  with assms show ?thesis by (simp add: handleSlotSelect_no_user)
next
  case (Some uid)
  have "store_inv (case heldSlot pg of
        None \<Rightarrow> st
      | Some h \<Rightarrow> if id_slot h \<noteq> id_slot slot
                  then snd (releaseSlot (net Release_call) (id_slot h) uid st) else st)"
    using assms by (simp add: store_inv_releaseSlot split: option.splits)
  then have "store_inv (snd (holdSlot (net Hold_call) now (id_slot slot) uid
     (case heldSlot pg of
        None \<Rightarrow> st
      | Some h \<Rightarrow> if id_slot h \<noteq> id_slot slot
                  then snd (releaseSlot (net Release_call) (id_slot h) uid st) else st)))"
    by (rule store_inv_holdSlot)
  then show ?thesis
    by (simp add: store_inv_def handleSlotSelect_rows [OF Some])
qed

lemma handleSlotExpired_rows:
  "booking_slots (fst (handleSlotExpired net (st, pg))) =
     (case heldSlot pg of
        None \<Rightarrow> booking_slots st
      | Some h \<Rightarrow> (case user pg of
           None \<Rightarrow> booking_slots st
         | Some uid \<Rightarrow> booking_slots (snd (releaseSlot (net Release_call) (id_slot h) uid st))))"
  by (simp add: handleSlotExpired_def Let_def split: option.splits prod.splits)
     (metis fetchAvailableSlots_rows fst_conv)

lemma store_inv_handleSlotExpired:
  assumes "store_inv st"
  shows "store_inv (fst (handleSlotExpired net (st, pg)))"
proof -
  have "list_all slot_inv (booking_slots (fst (handleSlotExpired net (st, pg))))"
    unfolding handleSlotExpired_rows
    using assms store_inv_releaseSlot [OF assms]
    by (simp add: store_inv_def split: option.splits)
  then show ?thesis by (simp add: store_inv_def)
qed

text \<open>
  C8. Every operation on the slots preserves the data invariant (holder and deadline both
  present or both absent, present exactly when the status is \<open>held\<close>): \<open>holdSlot\<close>
  and \<open>releaseSlot\<close>, whether or not the request reaches the store, the query and the
  refresh (which change no row), and the page's handlers \<open>handleSlotSelect\<close> and
  \<open>handleSlotExpired\<close>.
\<close>

theorem slot_invariant_preserved:
  assumes "store_inv st"
  shows "store_inv (snd (holdSlot reachable now slotId userId st)) \<and>
         store_inv (snd (releaseSlot reachable slotId userId st)) \<and>
         store_inv (snd (getAvailableSlots reachable p d st)) \<and>
         store_inv (fst (fetchAvailableSlots net (st, pg))) \<and>
         store_inv (fst (handleSlotSelect net now slot (st, pg))) \<and>
         store_inv (fst (handleSlotExpired net (st, pg)))"
proof -
  have "store_inv (snd (getAvailableSlots reachable p d st))"
    using assms by (simp add: store_inv_def getAvailableSlots_rows)
  moreover have "store_inv (fst (fetchAvailableSlots net (st, pg)))"
    using assms by (simp add: store_inv_def fetchAvailableSlots_rows)
  ultimately show ?thesis
    using assms
    by (simp add: store_inv_holdSlot store_inv_releaseSlot store_inv_handleSlotSelect
        store_inv_handleSlotExpired)
qed

theorem slot_invariant_preserved_witness:
  "store_inv store0 \<and>
   store_inv (snd (holdSlot True 1000 ''s1'' ''alice'' store0)) \<and>
   map status (booking_slots (snd (holdSlot True 1000 ''s1'' ''alice'' store0))) = [Held, Available] \<and>
   store_inv store_held \<and>
   store_inv (snd (releaseSlot True ''s1'' ''alice'' store_held)) \<and>
   store_inv (fst (handleSlotSelect all_up 2000 slot_b (store_held, page_held))) \<and>
   map held_by (booking_slots (fst (handleSlotSelect all_up 2000 slot_b (store_held, page_held))))
     = [None, Some ''alice'']"
proof -
  have i0: "store_inv store0"
    by (simp add: store_inv_def store0_def slot_inv_def slot_a_def slot_b_def)
  have i1: "store_inv store_held"
    by (simp add: store_inv_def store_held_def slot_inv_def slot_a_held_def slot_a_def slot_b_def)
  have s: "map status (booking_slots (snd (holdSlot True 1000 ''s1'' ''alice'' store0)))
      = [Held, Available]"
    by (simp add: holdSlot_reachable store0_def hold_matches_def slot_a_def slot_b_def)
  have u: "user page_held = Some ''alice''"
    by (simp add: page_held_def page0_def)
  have h: "map held_by (booking_slots (fst (handleSlotSelect all_up 2000 slot_b (store_held, page_held))))
     = [None, Some ''alice'']"
    unfolding handleSlotSelect_rows [OF u]
    by (simp add: page_held_def page0_def all_up_def
        holdSlot_reachable releaseSlot_reachable store_held_def hold_matches_def
        release_matches_def slot_a_held_def slot_a_def slot_b_def)
  from slot_invariant_preserved [OF i0, where reachable = True and now = 1000
         and slotId = "''s1''" and userId = "''alice''"]
       slot_invariant_preserved [OF i1, where reachable = True and now = 2000
         and slotId = "''s1''" and userId = "''alice''" and net = all_up and pg = page_held
         and slot = slot_b]
       i0 i1 s h
  show ?thesis by simp
qed


section \<open>Selecting another slot\<close>

lemma holdSlot_result: "fst (holdSlot reachable now slotId userId st) = reachable"
  by (cases reachable) (simp_all add: holdSlot_reachable holdSlot_unreachable)

lemma releaseSlot_result: "fst (releaseSlot reachable slotId userId st) = reachable"
  by (cases reachable) (simp_all add: releaseSlot_reachable releaseSlot_unreachable)

lemma holdSlot_requests:
  "requests (snd (holdSlot reachable now slotId userId st)) =
     requests st @ [Update_hold slotId userId (now + 420000)]"
  by (cases reachable) (simp_all add: holdSlot_reachable holdSlot_unreachable)

lemma releaseSlot_requests:
  "requests (snd (releaseSlot reachable slotId userId st)) =
     requests st @ [Update_release slotId userId]"
  by (cases reachable) (simp_all add: releaseSlot_reachable releaseSlot_unreachable)

lemma getAvailableSlots_requests:
  "requests (snd (getAvailableSlots reachable p d st)) = requests st @ [Select_available p d]"
  by (simp add: getAvailableSlots_def Let_def split: PostgrestResponse.splits)

lemma holdSlot_ids:
  "map id_slot (booking_slots (snd (holdSlot reachable now slotId userId st))) =
   map id_slot (booking_slots st)"
  by (cases reachable) (simp_all add: holdSlot_reachable holdSlot_unreachable o_def)

lemma releaseSlot_ids:
  "map id_slot (booking_slots (snd (releaseSlot reachable slotId userId st))) =
   map id_slot (booking_slots st)"
  by (cases reachable) (simp_all add: releaseSlot_reachable releaseSlot_unreachable o_def)

lemma release_clears:
  assumes "\<forall>r \<in> set (booking_slots st). held_by r = Some uid \<longrightarrow> id_slot r = k"
  shows "holds uid (snd (releaseSlot True k uid st)) = []"
  using assms
  by (auto simp add: holds_def releaseSlot_reachable release_matches_def filter_empty_conv)

lemma hold_keeps_single_id:
  assumes "\<forall>r \<in> set (booking_slots st). held_by r = Some uid \<longrightarrow> id_slot r = k"
  shows "\<forall>r \<in> set (booking_slots (snd (holdSlot reachable now k uid st))).
           held_by r = Some uid \<longrightarrow> id_slot r = k"
  using assms
  by (cases reachable)
     (auto simp add: holdSlot_reachable holdSlot_unreachable hold_matches_def)

lemma at_most_one:
  assumes "distinct (map f rows)" and "\<forall>r \<in> set rows. P r \<longrightarrow> f r = k"
  shows "length (filter P rows) \<le> 1"
  using assms
proof (induction rows)
  case Nil
  then show ?case by simp
next
  case (Cons a rows)
  show ?case
  proof (cases "P a")
    case True
    with Cons.prems have "f a = k" and "k \<notin> f ` set rows" by auto
    have "\<not> P x" if "x \<in> set rows" for x
    proof
      assume "P x"
      with that Cons.prems(2) have "f x = k" by simp
      with that \<open>k \<notin> f ` set rows\<close> show False by blast
    qed
    then have "filter P rows = []"
      by (simp add: filter_empty_conv)
    with True show ?thesis by simp
  next
    case False
    with Cons show ?thesis by simp
  qed
qed

lemma flow_inv_iff:
  "flow_inv uid st pg =
     (\<forall>r \<in> set (booking_slots st). held_by r = Some uid \<longrightarrow>
        (case heldSlot pg of None \<Rightarrow> False | Some h \<Rightarrow> id_slot r = id_slot h))"
  by (auto simp add: flow_inv_def holds_def list_all_iff)

lemma fetchAvailableSlots_page:
  "heldSlot (snd (fetchAvailableSlots net (st, pg))) = heldSlot pg \<and>
   selectedSlot (snd (fetchAvailableSlots net (st, pg))) = selectedSlot pg \<and>
   effects (snd (fetchAvailableSlots net (st, pg))) = effects pg \<and>
   user (snd (fetchAvailableSlots net (st, pg))) = user pg"
  by (simp add: fetchAvailableSlots_def Let_def split: option.splits prod.splits)

lemma fetchAvailableSlots_requests:
  "\<exists>sel. requests (fst (fetchAvailableSlots net (st, pg))) = requests st @ sel \<and>
         (\<forall>q \<in> set sel. \<exists>p d. q = Select_available p d)"
proof (cases "selectedDate pg")
  case None
  then show ?thesis by (simp add: fetchAvailableSlots_def)
next
  case (Some d)
  show ?thesis
  proof (cases "providerId pg")
    case None
    with Some show ?thesis by (simp add: fetchAvailableSlots_def)
  next
    case (Some p)
    obtain slots st1 where g1: "getAvailableSlots (net First_query) p d st = (slots, st1)"
      by (cases "getAvailableSlots (net First_query) p d st")
    obtain slots2 st2 where g2: "getAvailableSlots (net Second_query) p d st1 = (slots2, st2)"
      by (cases "getAvailableSlots (net Second_query) p d st1")
    from g1 have r1: "requests st1 = requests st @ [Select_available p d]"
      using getAvailableSlots_requests [of "net First_query" p d st] by simp
    from g2 have r2: "requests st2 = requests st1 @ [Select_available p d]"
      using getAvailableSlots_requests [of "net Second_query" p d st1] by simp
    show ?thesis
    proof (cases "length slots = 0")
      case True
      with \<open>selectedDate pg = Some d\<close> Some g1 g2 r1 r2
      have "requests (fst (fetchAvailableSlots net (st, pg))) =
              requests st @ [Select_available p d, Select_available p d]"
        by (simp add: fetchAvailableSlots_def Let_def)
      then show ?thesis by auto
    next
      case False
      with \<open>selectedDate pg = Some d\<close> Some g1 r1
      have "requests (fst (fetchAvailableSlots net (st, pg))) =
              requests st @ [Select_available p d]"
        by (simp add: fetchAvailableSlots_def Let_def)
      then show ?thesis by auto
    qed
  qed
qed

lemma handleSlotSelect_page:
  assumes "user pg = Some uid"
  shows "heldSlot (snd (handleSlotSelect net now slot (st, pg))) =
           (if net Hold_call then Some slot else heldSlot pg) \<and>
         selectedSlot (snd (handleSlotSelect net now slot (st, pg))) =
           (if net Hold_call then Some slot else selectedSlot pg) \<and>
         effects (snd (handleSlotSelect net now slot (st, pg))) =
           effects pg @ [Toast (if net Hold_call then ''Slot Reserved'' else ''Slot Unavailable'')]"
proof -
  let ?st1 = "case heldSlot pg of
        None \<Rightarrow> st
      | Some h \<Rightarrow> if id_slot h \<noteq> id_slot slot
                  then snd (releaseSlot (net Release_call) (id_slot h) uid st) else st"
  obtain success st2 where h: "holdSlot (net Hold_call) now (id_slot slot) uid ?st1 = (success, st2)"
    by (cases "holdSlot (net Hold_call) now (id_slot slot) uid ?st1")
  then have s: "success = net Hold_call"
    using holdSlot_result [of "net Hold_call" now "id_slot slot" uid ?st1] by simp
  show ?thesis
    using assms h s
    by (simp add: handleSlotSelect_def Let_def fetchAvailableSlots_page)
qed

lemma handleSlotSelect_requests:
  assumes "user pg = Some uid" and "heldSlot pg = Some h" and "id_slot h \<noteq> id_slot slot"
  shows "\<exists>sel. requests (fst (handleSlotSelect net now slot (st, pg))) =
           requests st @ Update_release (id_slot h) uid
             # Update_hold (id_slot slot) uid (now + 420000) # sel \<and>
           (\<forall>q \<in> set sel. \<exists>p d. q = Select_available p d)"
proof -
  let ?st1 = "snd (releaseSlot (net Release_call) (id_slot h) uid st)"
  obtain success st2 where h: "holdSlot (net Hold_call) now (id_slot slot) uid ?st1 = (success, st2)"
    by (cases "holdSlot (net Hold_call) now (id_slot slot) uid ?st1")
  then have r2: "requests st2 = requests st @ [Update_release (id_slot h) uid,
        Update_hold (id_slot slot) uid (now + 420000)]"
    using holdSlot_requests [of "net Hold_call" now "id_slot slot" uid ?st1]
    by (simp add: releaseSlot_requests)
  show ?thesis
  proof (cases success)
    case True
    with assms h r2 have "requests (fst (handleSlotSelect net now slot (st, pg))) =
        requests st @ Update_release (id_slot h) uid
             # Update_hold (id_slot slot) uid (now + 420000) # []"
      by (simp add: handleSlotSelect_def Let_def)
    then show ?thesis by simp
  next
    case False
    obtain sel where sel: "requests (fst (fetchAvailableSlots net
         (st2, pg\<lparr>effects := effects pg @ [Toast ''Slot Unavailable'']\<rparr>))) = requests st2 @ sel"
      and q: "\<forall>q \<in> set sel. \<exists>p d. q = Select_available p d"
      using fetchAvailableSlots_requests by blast
    from False assms h have "fst (handleSlotSelect net now slot (st, pg)) =
        fst (fetchAvailableSlots net
         (st2, pg\<lparr>effects := effects pg @ [Toast ''Slot Unavailable'']\<rparr>))"
      by (simp add: handleSlotSelect_def Let_def)
    with sel r2 q show ?thesis by simp
  qed
qed

text \<open>
  The release of the prior slot is requested before the hold of the new one. When every
  row the user holds is the slot the page remembers as \<open>heldSlot\<close>, the ids of the
  table are distinct and the release request reaches the store, the user holds at most
  one row after \<open>handleSlotSelect\<close>, and nothing between the two requests.
\<close>

lemma one_hold_per_flow:
  assumes u: "user pg = Some uid" and inv: "flow_inv uid st pg"
    and d: "distinct (map id_slot (booking_slots st))"
    and rel: "net Release_call"
    and run: "handleSlotSelect net now slot (st, pg) = (st', pg')"
  shows "length (holds uid st) \<le> 1 \<and> length (holds uid st') \<le> 1 \<and>
         flow_inv uid st' pg' \<and> distinct (map id_slot (booking_slots st')) \<and>
         (\<forall>h. heldSlot pg = Some h \<and> id_slot h \<noteq> id_slot slot \<longrightarrow>
            holds uid (snd (releaseSlot (net Release_call) (id_slot h) uid st)) = [] \<and>
            (\<exists>sel. requests st' = requests st @ Update_release (id_slot h) uid
                      # Update_hold (id_slot slot) uid (now + 420000) # sel \<and>
                    (\<forall>q \<in> set sel. \<exists>p d. q = Select_available p d)))"
proof -
  let ?st1 = "case heldSlot pg of
        None \<Rightarrow> st
      | Some h \<Rightarrow> if id_slot h \<noteq> id_slot slot
                  then snd (releaseSlot (net Release_call) (id_slot h) uid st) else st"
  from run have st': "st' = fst (handleSlotSelect net now slot (st, pg))"
    and pg': "pg' = snd (handleSlotSelect net now slot (st, pg))" by simp_all
  have rows': "booking_slots st' =
      booking_slots (snd (holdSlot (net Hold_call) now (id_slot slot) uid ?st1))"
    unfolding st' by (rule handleSlotSelect_rows [OF u])
  have held': "heldSlot pg' = (if net Hold_call then Some slot else heldSlot pg)"
    unfolding pg' using handleSlotSelect_page [OF u] by simp
  from inv have before: "\<forall>r \<in> set (booking_slots st). held_by r = Some uid \<longrightarrow>
        (case heldSlot pg of None \<Rightarrow> False | Some h \<Rightarrow> id_slot r = id_slot h)"
    by (simp add: flow_inv_iff)
  have one_before: "length (holds uid st) \<le> 1"
  proof (cases "heldSlot pg")
    case None
    with before have "holds uid st = []" by (auto simp add: holds_def filter_empty_conv)
    then show ?thesis by simp
  next
    case (Some h)
    with before have "\<forall>r \<in> set (booking_slots st). held_by r = Some uid \<longrightarrow> id_slot r = id_slot h"
      by simp
    with d show ?thesis unfolding holds_def by (rule at_most_one)
  qed
  have mid: "\<forall>r \<in> set (booking_slots ?st1). held_by r = Some uid \<longrightarrow> id_slot r = id_slot slot"
  proof (cases "heldSlot pg")
    case None
    with before show ?thesis by auto
  next
    case (Some h)
    show ?thesis
    proof (cases "id_slot h = id_slot slot")
      case True
      with Some before show ?thesis by simp
    next
      case False
      from Some before have "\<forall>r \<in> set (booking_slots st). held_by r = Some uid \<longrightarrow> id_slot r = id_slot h"
        by simp
      then have "holds uid (snd (releaseSlot True (id_slot h) uid st)) = []"
        by (rule release_clears)
      with Some False rel show ?thesis
        by (auto simp add: holds_def filter_empty_conv)
    qed
  qed
  have after: "\<forall>r \<in> set (booking_slots st'). held_by r = Some uid \<longrightarrow> id_slot r = id_slot slot"
    unfolding rows' using mid by (rule hold_keeps_single_id)
  have ids: "map id_slot (booking_slots st') = map id_slot (booking_slots st)"
    unfolding rows' by (simp add: holdSlot_ids releaseSlot_ids split: option.splits)
  with d have d': "distinct (map id_slot (booking_slots st'))" by simp
  from d' after have one_after: "length (holds uid st') \<le> 1"
    unfolding holds_def by (rule at_most_one)
  have inv': "flow_inv uid st' pg'"
  proof (cases "net Hold_call")
    case True
    with held' after show ?thesis by (simp add: flow_inv_iff)
  next
    case False
    then have same: "booking_slots st' = booking_slots ?st1"
      unfolding rows' by (simp add: holdSlot_unreachable)
    show ?thesis
    proof (cases "heldSlot pg")
      case None
      with before same have "\<forall>r \<in> set (booking_slots st'). held_by r \<noteq> Some uid" by auto
      then show ?thesis by (simp add: flow_inv_iff)
    next
      case (Some h)
      show ?thesis
      proof (cases "id_slot h = id_slot slot")
        case True
        with Some same before held' False show ?thesis by (simp add: flow_inv_iff)
      next
        case neq: False
        from Some before have "\<forall>r \<in> set (booking_slots st). held_by r = Some uid \<longrightarrow> id_slot r = id_slot h"
          by simp
        then have "holds uid (snd (releaseSlot True (id_slot h) uid st)) = []"
          by (rule release_clears)
        with Some neq rel same have "holds uid st' = []" by (simp add: holds_def)
        then show ?thesis by (simp add: flow_inv_def)
      qed
    qed
  qed
  have order: "\<forall>h. heldSlot pg = Some h \<and> id_slot h \<noteq> id_slot slot \<longrightarrow>
            holds uid (snd (releaseSlot (net Release_call) (id_slot h) uid st)) = [] \<and>
            (\<exists>sel. requests st' = requests st @ Update_release (id_slot h) uid
                      # Update_hold (id_slot slot) uid (now + 420000) # sel \<and>
                    (\<forall>q \<in> set sel. \<exists>p d. q = Select_available p d))"
  proof (intro allI impI)
    fix h assume a: "heldSlot pg = Some h \<and> id_slot h \<noteq> id_slot slot"
    with before have "\<forall>r \<in> set (booking_slots st). held_by r = Some uid \<longrightarrow> id_slot r = id_slot h"
      by simp
    then have "holds uid (snd (releaseSlot True (id_slot h) uid st)) = []"
      by (rule release_clears)
    moreover from a have "\<exists>sel. requests st' = requests st @ Update_release (id_slot h) uid
                      # Update_hold (id_slot slot) uid (now + 420000) # sel \<and>
                    (\<forall>q \<in> set sel. \<exists>p d. q = Select_available p d)"
      unfolding st' using handleSlotSelect_requests [OF u, of h slot net now st] by simp
    ultimately show "holds uid (snd (releaseSlot (net Release_call) (id_slot h) uid st)) = [] \<and>
            (\<exists>sel. requests st' = requests st @ Update_release (id_slot h) uid
                      # Update_hold (id_slot slot) uid (now + 420000) # sel \<and>
                    (\<forall>q \<in> set sel. \<exists>p d. q = Select_available p d))"
      using rel by simp
  qed
  from one_before one_after inv' d' order show ?thesis by simp
qed

lemma one_hold_per_flow_example:
  "flow_inv ''alice'' store_held page_held \<and>
   map held_by (booking_slots (fst (handleSlotSelect all_up 2000 slot_b (store_held, page_held))))
     = [None, Some ''alice''] \<and>
   length (holds ''alice'' (fst (handleSlotSelect all_up 2000 slot_b (store_held, page_held)))) \<le> 1 \<and>
   flow_inv ''alice'' (fst (handleSlotSelect all_up 2000 slot_b (store_held, page_held)))
     (snd (handleSlotSelect all_up 2000 slot_b (store_held, page_held))) \<and>
   requests (fst (handleSlotSelect all_up 2000 slot_b (store_held, page_held))) =
     [Update_release ''s1'' ''alice'', Update_hold ''s2'' ''alice'' 422000]"
proof -
  have u: "user page_held = Some ''alice''"
    by (simp add: page_held_def page0_def)
  have inv: "flow_inv ''alice'' store_held page_held"
    by (simp add: flow_inv_def holds_def store_held_def page_held_def page0_def
        slot_a_held_def slot_a_def slot_b_def)
  have d: "distinct (map id_slot (booking_slots store_held))"
    by (simp add: store_held_def slot_a_held_def slot_a_def slot_b_def)
  have rel: "all_up Release_call"
    by (simp add: all_up_def)
  obtain st' pg' where run: "handleSlotSelect all_up 2000 slot_b (store_held, page_held) = (st', pg')"
    by (cases "handleSlotSelect all_up 2000 slot_b (store_held, page_held)")
  have rows: "map held_by (booking_slots (fst (handleSlotSelect all_up 2000 slot_b (store_held, page_held))))
     = [None, Some ''alice'']"
    unfolding handleSlotSelect_rows [OF u]
    by (simp add: page_held_def page0_def all_up_def
        holdSlot_reachable releaseSlot_reachable store_held_def hold_matches_def
        release_matches_def slot_a_held_def slot_a_def slot_b_def)
  have reqs: "requests (fst (handleSlotSelect all_up 2000 slot_b (store_held, page_held))) =
     [Update_release ''s1'' ''alice'', Update_hold ''s2'' ''alice'' 422000]"
    by (simp add: handleSlotSelect_def page_held_def page0_def all_up_def
        holdSlot_reachable releaseSlot_reachable store_held_def
        slot_a_held_def slot_a_def slot_b_def)
  from one_hold_per_flow [OF u inv d rel run] inv rows reqs run
  show ?thesis by simp
qed

text \<open>
  C10. When a user who holds a slot selects another one, the release reaches the store and
  the acquire then fails (\<open>holdSlot\<close> returns \<open>false\<close>), the store has the prior slot
  released (no row of that id is held by the user), no further update is requested (only
  the refresh queries follow, so the prior hold is not acquired again), and the page still
  has the prior slot as \<open>heldSlot\<close> and its \<open>selectedSlot\<close> unchanged: page and store
  disagree.
\<close>

theorem failed_acquire_keeps_stale_heldSlot:
  assumes u: "user pg = Some uid" and held: "heldSlot pg = Some h"
    and neq: "id_slot h \<noteq> id_slot slot"
    and rel: "net Release_call"
    and fails: "\<not> fst (holdSlot (net Hold_call) now (id_slot slot) uid
                        (snd (releaseSlot (net Release_call) (id_slot h) uid st)))"
    and run: "handleSlotSelect net now slot (st, pg) = (st', pg')"
  shows "heldSlot pg' = Some h \<and> selectedSlot pg' = selectedSlot pg \<and>
         effects pg' = effects pg @ [Toast ''Slot Unavailable''] \<and>
         booking_slots st' = booking_slots (snd (releaseSlot True (id_slot h) uid st)) \<and>
         (\<forall>r \<in> set (booking_slots st'). id_slot r = id_slot h \<longrightarrow> held_by r \<noteq> Some uid) \<and>
         (\<forall>q \<in> set (drop (length (requests st) + 2) (requests st')).
            \<exists>p d. q = Select_available p d) \<and>
         take 2 (drop (length (requests st)) (requests st')) =
           [Update_release (id_slot h) uid, Update_hold (id_slot slot) uid (now + 420000)]"
proof -
  from fails have down: "\<not> net Hold_call"
    by (simp add: holdSlot_result)
  from run have st': "st' = fst (handleSlotSelect net now slot (st, pg))"
    and pg': "pg' = snd (handleSlotSelect net now slot (st, pg))" by simp_all
  have page: "heldSlot pg' = Some h \<and> selectedSlot pg' = selectedSlot pg \<and>
         effects pg' = effects pg @ [Toast ''Slot Unavailable'']"
    unfolding pg' using handleSlotSelect_page [OF u, of net now slot st] down held by simp
  have rows: "booking_slots st' = booking_slots (snd (releaseSlot True (id_slot h) uid st))"
    unfolding st' handleSlotSelect_rows [OF u]
    using down held neq rel by (simp add: holdSlot_unreachable)
  have cleared: "\<forall>r \<in> set (booking_slots st'). id_slot r = id_slot h \<longrightarrow> held_by r \<noteq> Some uid"
    unfolding rows by (auto simp add: releaseSlot_reachable release_matches_def)
  obtain sel where sel: "requests st' = requests st @ Update_release (id_slot h) uid
             # Update_hold (id_slot slot) uid (now + 420000) # sel"
    and q: "\<forall>q \<in> set sel. \<exists>p d. q = Select_available p d"
    unfolding st' using handleSlotSelect_requests [OF u held neq, of net now st] by blast
  from sel have t: "take 2 (drop (length (requests st)) (requests st')) =
           [Update_release (id_slot h) uid, Update_hold (id_slot slot) uid (now + 420000)]"
    by simp
  from sel have "drop (length (requests st) + 2) (requests st') = sel"
    by (simp add: drop_Cons numeral_2_eq_2)
  with q have dr: "\<forall>q \<in> set (drop (length (requests st) + 2) (requests st')).
            \<exists>p d. q = Select_available p d" by simp
  from page rows cleared dr t show ?thesis by simp
qed

theorem failed_acquire_keeps_stale_heldSlot_witness:
  "heldSlot (snd (handleSlotSelect hold_down 2000 slot_b (store_held, page_held))) = Some slot_a \<and>
   map held_by (booking_slots store_held) = [Some ''alice'', None] \<and>
   map held_by (booking_slots (fst (handleSlotSelect hold_down 2000 slot_b (store_held, page_held))))
     = [None, None] \<and>
   map status (booking_slots (fst (handleSlotSelect hold_down 2000 slot_b (store_held, page_held))))
     = [Available, Available] \<and>
   requests (fst (handleSlotSelect hold_down 2000 slot_b (store_held, page_held))) =
     [Update_release ''s1'' ''alice'', Update_hold ''s2'' ''alice'' 422000,
      Select_available ''p1'' 20148]"
proof -
  have u: "user page_held = Some ''alice''"
    by (simp add: page_held_def page0_def)
  have held: "heldSlot page_held = Some slot_a"
    by (simp add: page_held_def page0_def)
  have neq: "id_slot slot_a \<noteq> id_slot slot_b"
    by (simp add: slot_a_def slot_b_def)
  have rel: "hold_down Release_call"
    by (simp add: hold_down_def)
  have fails: "\<not> fst (holdSlot (hold_down Hold_call) 2000 (id_slot slot_b) ''alice''
                        (snd (releaseSlot (hold_down Release_call) (id_slot slot_a) ''alice'' store_held)))"
    by (simp add: hold_down_def holdSlot_unreachable)
  obtain st' pg' where run: "handleSlotSelect hold_down 2000 slot_b (store_held, page_held) = (st', pg')"
    by (cases "handleSlotSelect hold_down 2000 slot_b (store_held, page_held)")
  have before: "map held_by (booking_slots store_held) = [Some ''alice'', None]"
    by (simp add: store_held_def slot_a_held_def slot_a_def slot_b_def)
  have rows: "booking_slots (snd (releaseSlot True (id_slot slot_a) ''alice'' store_held)) = [slot_a, slot_b]"
    by (simp add: releaseSlot_reachable store_held_def release_matches_def
        slot_a_held_def slot_a_def slot_b_def)
  have reqs: "requests (fst (handleSlotSelect hold_down 2000 slot_b (store_held, page_held))) =
     [Update_release ''s1'' ''alice'', Update_hold ''s2'' ''alice'' 422000,
      Select_available ''p1'' 20148]"
    by (simp add: handleSlotSelect_def fetchAvailableSlots_def getAvailableSlots_def
        select_eq_order_def page_held_def page0_def hold_down_def
        holdSlot_unreachable releaseSlot_reachable store_held_def release_matches_def
        slot_a_held_def slot_a_def slot_b_def morning_def afternoon_def)
  from failed_acquire_keeps_stale_heldSlot [OF u held neq rel fails run] before rows reqs run
  show ?thesis by (simp add: slot_a_def slot_b_def)
qed


section \<open>Evaluation on the example data\<close>

lemmas example_defs = store0_def store_held_def store_empty_def page0_def page_held_def
  page_bob_def slot_a_held_def slot_a_def slot_b_def morning_def afternoon_def
  all_up_def all_down_def hold_down_def release_down_def

section \<open>Contention\<close>

text \<open>
  C1, evaluated on the code. \<open>holdSlot\<close> looks only at \<open>error\<close>, never at the number
  of records the update touched. Alice holds slot \<open>s1\<close> (one record affected, result
  \<open>true\<close>); Bob then asks for the same slot: the guarded update matches no record and
  leaves the table as it is, yet \<open>holdSlot\<close> returns \<open>true\<close> again, and Bob's page
  records the slot as held, shows \<open>Slot Reserved\<close> and does not refresh the list.
\<close>

theorem holdSlot_reports_success_without_update:
  "rows_affected (hold_matches ''s1'') (booking_slots store0) = 1 \<and>
   fst (holdSlot True 1000 ''s1'' ''alice'' store0) \<and>
   booking_slots (snd (holdSlot True 1000 ''s1'' ''alice'' store0)) = booking_slots store_held \<and>
   rows_affected (hold_matches ''s1'') (booking_slots store_held) = 0 \<and>
   fst (holdSlot True 1001 ''s1'' ''bob'' store_held) \<and>
   booking_slots (snd (holdSlot True 1001 ''s1'' ''bob'' store_held)) = booking_slots store_held \<and>
   map held_by (booking_slots store_held) = [Some ''alice'', None] \<and>
   heldSlot (snd (handleSlotSelect all_up 1001 slot_a (store_held, page_bob))) = Some slot_a \<and>
   effects (snd (handleSlotSelect all_up 1001 slot_a (store_held, page_bob))) =
     [Toast ''Slot Reserved''] \<and>
   requests (fst (handleSlotSelect all_up 1001 slot_a (store_held, page_bob))) =
     [Update_hold ''s1'' ''bob'' 421001]"
  by (simp add: rows_affected_def hold_matches_def holdSlot_reachable handleSlotSelect_def
      example_defs)

text \<open>
  C9, evaluated on the code. \<open>handleSlotSelect\<close> does not look at the result of
  \<open>releaseSlot\<close>. Alice holds slot \<open>s1\<close> and selects \<open>s2\<close>; the release request
  fails and the hold request succeeds: the release was requested first, but the table
  now has both rows held by Alice, while the page records \<open>s2\<close> as held and shows
  \<open>Slot Reserved\<close>.
\<close>

theorem failed_release_leaves_two_holds:
  "map held_by (booking_slots store_held) = [Some ''alice'', None] \<and>
   heldSlot page_held = Some slot_a \<and>
   fst (releaseSlot (release_down Release_call) ''s1'' ''alice'' store_held) = False \<and>
   map held_by
     (booking_slots (fst (handleSlotSelect release_down 2000 slot_b (store_held, page_held))))
     = [Some ''alice'', Some ''alice''] \<and>
   map status
     (booking_slots (fst (handleSlotSelect release_down 2000 slot_b (store_held, page_held))))
     = [Held, Held] \<and>
   length (holds ''alice'' (fst (handleSlotSelect release_down 2000 slot_b (store_held, page_held))))
     = 2 \<and>
   heldSlot (snd (handleSlotSelect release_down 2000 slot_b (store_held, page_held))) =
     Some slot_b \<and>
   effects (snd (handleSlotSelect release_down 2000 slot_b (store_held, page_held))) =
     [Toast ''Slot Reserved''] \<and>
   requests (fst (handleSlotSelect release_down 2000 slot_b (store_held, page_held))) =
     [Update_release ''s1'' ''alice'', Update_hold ''s2'' ''alice'' 422000]"
  by (simp add: holds_def hold_matches_def holdSlot_reachable releaseSlot_unreachable
      handleSlotSelect_def example_defs)

section \<open>The slot query\<close>

lemma getAvailableSlots_reachable:
  "fst (getAvailableSlots True p d st) =
     sort_key (\<lambda>r. display_order (time_slot r))
       (filter (\<lambda>r. provider_id r = p \<and> date r = d \<and> status r = Available) (booking_slots st))"
  by (simp add: getAvailableSlots_def select_eq_order_def)

lemma getAvailableSlots_unreachable:
  "fst (getAvailableSlots False p d st) = []"
  by (simp add: getAvailableSlots_def select_eq_order_def)

lemma getAvailableSlots_same_rows:
  "booking_slots st1 = booking_slots st \<Longrightarrow>
     fst (getAvailableSlots reachable p d st1) = fst (getAvailableSlots reachable p d st)"
  by (simp add: getAvailableSlots_def select_eq_order_def)

text \<open>
  C4 as stated fails: the rows come back in ascending \<open>display_order\<close>, which need not
  be the order of the time of day. Here the 15:00 slot has display order 1 and the 09:00
  slot display order 2.
\<close>

theorem slot_order_counterexample:
  "\<not> (\<forall>(st::Store) p d.
         sorted (map (\<lambda>r. start_time (time_slot r)) (fst (getAvailableSlots True p d st))))"
proof
  assume "\<forall>(st::Store) p d.
       sorted (map (\<lambda>r. start_time (time_slot r)) (fst (getAvailableSlots True p d st)))"
  then have "sorted (map (\<lambda>r. start_time (time_slot r))
       (fst (getAvailableSlots True ''p1'' 20148 store0)))"
    by blast
  moreover have "map (\<lambda>r. start_time (time_slot r))
       (fst (getAvailableSlots True ''p1'' 20148 store0)) = [''15:00:00'', ''09:00:00'']"
    by (simp add: getAvailableSlots_reachable example_defs)
  ultimately show False by simp
qed

text \<open>
  C4, as amended. The query for a (provider, date) returns the slots of that provider and
  date with status \<open>available\<close>, each as often as the table has it, in ascending
  \<open>display_order\<close> of their time slot.
\<close>

theorem slot_query_ordered_by_display_order:
  "mset (fst (getAvailableSlots True p d st)) =
     mset (filter (\<lambda>r. provider_id r = p \<and> date r = d \<and> status r = Available)
             (booking_slots st)) \<and>
   sorted (map (\<lambda>r. display_order (time_slot r)) (fst (getAvailableSlots True p d st)))"
proof -
  have m: "mset (fst (getAvailableSlots True p d st)) =
     mset (filter (\<lambda>r. provider_id r = p \<and> date r = d \<and> status r = Available)
             (booking_slots st))"
    by (simp add: getAvailableSlots_reachable)
  have s: "sorted (map (\<lambda>r. display_order (time_slot r)) (fst (getAvailableSlots True p d st)))"
    by (simp add: getAvailableSlots_reachable)
  from m s show ?thesis by simp
qed

theorem slot_query_ordered_by_display_order_witness:
  "fst (getAvailableSlots True ''p1'' 20148 store0) = [slot_b, slot_a] \<and>
   map (\<lambda>r. display_order (time_slot r)) (fst (getAvailableSlots True ''p1'' 20148 store0))
     = [1, 2] \<and>
   sorted (map (\<lambda>r. display_order (time_slot r))
     (fst (getAvailableSlots True ''p1'' 20148 store0))) \<and>
   fst (getAvailableSlots True ''p1'' 20148 store_held) = [slot_b]"
proof -
  have n: "fst (getAvailableSlots True ''p1'' 20148 store0) = [slot_b, slot_a]"
    by (simp add: getAvailableSlots_reachable example_defs)
  have h: "fst (getAvailableSlots True ''p1'' 20148 store_held) = [slot_b]"
    by (simp add: getAvailableSlots_reachable example_defs)
  have k: "map (\<lambda>r. display_order (time_slot r)) [slot_b, slot_a] = [1, 2]"
    by (simp add: example_defs)
  from slot_query_ordered_by_display_order [where st = store0 and p = "''p1''" and d = 20148]
       n h k
  show ?thesis by simp
qed

text \<open>
  The refresh as the source stands, with the generation call commented out: it changes
  no row and sends selects only, two when the first result is empty and one otherwise.
\<close>

lemma fetchAvailableSlots_selects_only:
  "booking_slots (fst (fetchAvailableSlots net (st, pg))) = booking_slots st \<and>
   (\<exists>sel. requests (fst (fetchAvailableSlots net (st, pg))) = requests st @ sel \<and>
          (\<forall>q \<in> set sel. \<exists>p d. q = Select_available p d))"
  using fetchAvailableSlots_rows [of net st pg] fetchAvailableSlots_requests [of net st pg]
  by simp

lemma fetchAvailableSlots_empty_date:
  "requests (fst (fetchAvailableSlots all_up (store_empty, page0))) =
     [Select_available ''p1'' 20148, Select_available ''p1'' 20148] \<and>
   booking_slots (fst (fetchAvailableSlots all_up (store_empty, page0))) = [] \<and>
   availableSlots (snd (fetchAvailableSlots all_up (store_empty, page0))) = []"
  by (simp add: fetchAvailableSlots_def getAvailableSlots_def select_eq_order_def example_defs)

text \<open>
  C6, evaluated on the code. With the store unreachable \<open>getAvailableSlots\<close> returns the
  empty list, the same value it returns for a provider without slots, although the
  reachable store has two available slots; \<open>fetchAvailableSlots\<close> then leaves the page
  exactly as a refresh against an empty table does, and shows no toast.
\<close>

theorem getAvailableSlots_hides_store_failure:
  "fst (getAvailableSlots False ''p1'' 20148 store0) = [] \<and>
   fst (getAvailableSlots True ''p1'' 20148 store_empty) = [] \<and>
   fst (getAvailableSlots True ''p1'' 20148 store0) = [slot_b, slot_a] \<and>
   availableSlots (snd (fetchAvailableSlots all_down (store0, page0))) = [] \<and>
   effects (snd (fetchAvailableSlots all_down (store0, page0))) = [] \<and>
   snd (fetchAvailableSlots all_down (store0, page0)) =
     snd (fetchAvailableSlots all_up (store_empty, page0))"
  by (simp add: getAvailableSlots_def select_eq_order_def fetchAvailableSlots_def example_defs)

section \<open>Confirmation\<close>

text \<open>
  C2 as stated fails: with the stored deadline 421000 passed at clock 500000,
  \<open>handleProceedToPayment\<close> still hands the held slot to the cart.
\<close>

theorem confirm_after_deadline_counterexample:
  "\<not> (\<forall>(st::Store) (now::int) (pg::Page) (h::BookingSlot) uid d.
         user pg = Some uid \<and> selectedSlot pg = Some h \<and> heldSlot pg = Some h \<and>
         (\<exists>r \<in> set (booking_slots st).
            id_slot r = id_slot h \<and> held_by r = Some uid \<and>
            hold_expires_at r = Some d \<and> d < now)
         \<longrightarrow> effects (handleProceedToPayment pg) = effects pg)"
proof
  assume a: "\<forall>(st::Store) (now::int) (pg::Page) (h::BookingSlot) uid d.
         user pg = Some uid \<and> selectedSlot pg = Some h \<and> heldSlot pg = Some h \<and>
         (\<exists>r \<in> set (booking_slots st).
            id_slot r = id_slot h \<and> held_by r = Some uid \<and>
            hold_expires_at r = Some d \<and> d < now)
         \<longrightarrow> effects (handleProceedToPayment pg) = effects pg"
  have "user page_held = Some ''alice'' \<and> selectedSlot page_held = Some slot_a \<and>
        heldSlot page_held = Some slot_a \<and>
        (\<exists>r \<in> set (booking_slots store_held).
            id_slot r = id_slot slot_a \<and> held_by r = Some ''alice'' \<and>
            hold_expires_at r = Some 421000 \<and> 421000 < (500000::int))"
    by (simp add: example_defs)
  with a [rule_format, where pg = page_held and uid = "''alice''" and h = slot_a
           and st = store_held and d = 421000 and now = 500000]
  have "effects (handleProceedToPayment page_held) = effects page_held"
    by simp
  then show False
    by (simp add: handleProceedToPayment_def example_defs)
qed

lemma handleSlotExpired_page:
  assumes "user pg = Some uid" and "heldSlot pg = Some h"
  shows "heldSlot (snd (handleSlotExpired net (st, pg))) = None \<and>
         selectedSlot (snd (handleSlotExpired net (st, pg))) = None \<and>
         effects (snd (handleSlotExpired net (st, pg))) = effects pg @ [Toast ''Slot Expired'']"
proof -
  let ?w = "fetchAvailableSlots net
      (snd (releaseSlot (net Release_call) (id_slot h) uid st),
       pg\<lparr>heldSlot := None, selectedSlot := None\<rparr>)"
  obtain st2 pg2 where f: "?w = (st2, pg2)" by (cases ?w)
  from fetchAvailableSlots_page [of net "snd (releaseSlot (net Release_call) (id_slot h) uid st)"
      "pg\<lparr>heldSlot := None, selectedSlot := None\<rparr>"] f
  have "heldSlot pg2 = None \<and> selectedSlot pg2 = None \<and> effects pg2 = effects pg" by simp
  with assms f show ?thesis
    by (simp add: handleSlotExpired_def Let_def)
qed

lemma handleSlotExpired_idle:
  "heldSlot pg = None \<Longrightarrow> snd (handleSlotExpired net (st, pg)) = pg"
  by (simp add: handleSlotExpired_def)

lemma verify_payment_paid_iff:
  "(verify_payment req_method authHeader getUser sessionId stripeSecretKey retrieve = Paid_200) =
     (req_method \<noteq> ''OPTIONS'' \<and>
      (\<exists>hdr usr sid key. authHeader = Some hdr \<and> hdr \<noteq> [] \<and> getUser hdr = Some usr \<and>
         sessionId = Some sid \<and> sid \<noteq> [] \<and> stripeSecretKey = Some key \<and> key \<noteq> [] \<and>
         retrieve sid = Some ''paid''))"
  by (auto simp add: verify_payment_def falsy_def split: option.splits if_splits)

text \<open>
  C2, as amended. Confirmation is gated by the page state only: \<open>handleProceedToPayment\<close>
  hands the held slot to the cart whenever \<open>selectedSlot\<close> and \<open>heldSlot\<close> are both
  set, whatever the clock and the stored deadline are, and does nothing otherwise; once
  the expiry callback \<open>handleSlotExpired\<close> has run for a signed-in user it hands off
  nothing; and \<open>verify-payment\<close> answers success exactly for an authenticated request
  with a session id and a configured key whose session is paid, without reading any slot.
\<close>

theorem confirm_gated_by_page_state_only:
  "(\<forall>s h. selectedSlot pg = Some s \<and> heldSlot pg = Some h \<longrightarrow>
      effects (handleProceedToPayment pg) = effects pg @ [Navigate ''/cart'' h]) \<and>
   (selectedSlot pg = None \<or> heldSlot pg = None \<longrightarrow> handleProceedToPayment pg = pg) \<and>
   (user pg \<noteq> None \<longrightarrow>
      handleProceedToPayment (snd (handleSlotExpired net (st, pg))) =
        snd (handleSlotExpired net (st, pg))) \<and>
   ((verify_payment req_method authHeader getUser sessionId stripeSecretKey retrieve = Paid_200) =
     (req_method \<noteq> ''OPTIONS'' \<and>
      (\<exists>hdr usr sid key. authHeader = Some hdr \<and> hdr \<noteq> [] \<and> getUser hdr = Some usr \<and>
         sessionId = Some sid \<and> sid \<noteq> [] \<and> stripeSecretKey = Some key \<and> key \<noteq> [] \<and>
         retrieve sid = Some ''paid'')))"
proof -
  have a: "\<forall>s h. selectedSlot pg = Some s \<and> heldSlot pg = Some h \<longrightarrow>
      effects (handleProceedToPayment pg) = effects pg @ [Navigate ''/cart'' h]"
    by (simp add: handleProceedToPayment_def)
  have b: "selectedSlot pg = None \<or> heldSlot pg = None \<longrightarrow> handleProceedToPayment pg = pg"
    by (auto simp add: handleProceedToPayment_def split: option.splits)
  have c: "user pg \<noteq> None \<longrightarrow>
      handleProceedToPayment (snd (handleSlotExpired net (st, pg))) =
        snd (handleSlotExpired net (st, pg))"
  proof
    assume "user pg \<noteq> None"
    then obtain uid where u: "user pg = Some uid" by auto
    show "handleProceedToPayment (snd (handleSlotExpired net (st, pg))) =
        snd (handleSlotExpired net (st, pg))"
    proof (cases "heldSlot pg")
      case None
      then show ?thesis
        by (simp add: handleSlotExpired_idle handleProceedToPayment_def split: option.splits)
    next
      case (Some h)
      from handleSlotExpired_page [OF u Some, of net st]
      show ?thesis by (simp add: handleProceedToPayment_def)
    qed
  qed
  from a b c verify_payment_paid_iff show ?thesis by blast
qed

theorem confirm_gated_by_page_state_only_witness:
  "effects (handleProceedToPayment page_held) = [Navigate ''/cart'' slot_a] \<and>
   handleProceedToPayment page0 = page0 \<and>
   effects (handleProceedToPayment (snd (handleSlotExpired all_up (store_held, page_held)))) =
     [Toast ''Slot Expired''] \<and>
   verify_payment ''POST'' (Some ''Bearer token'') (\<lambda>hdr. Some ''alice'') (Some ''cs_test_1'')
     (Some ''sk_test'') (\<lambda>sid. Some ''paid'') = Paid_200"
proof -
  have s: "selectedSlot page_held = Some slot_a \<and> heldSlot page_held = Some slot_a"
    by (simp add: page_held_def page0_def)
  have n: "selectedSlot page0 = None \<or> heldSlot page0 = None"
    by (simp add: page0_def)
  have u: "user page_held \<noteq> None"
    by (simp add: page_held_def page0_def)
  have e: "effects page_held = []"
    by (simp add: page_held_def page0_def)
  have x: "effects (snd (handleSlotExpired all_up (store_held, page_held))) = [Toast ''Slot Expired'']"
    using handleSlotExpired_page [of page_held "''alice''" slot_a all_up store_held]
    by (simp add: page_held_def page0_def)
  have v: "''POST'' \<noteq> ''OPTIONS'' \<and>
      (\<exists>hdr usr sid key. Some ''Bearer token'' = Some hdr \<and> hdr \<noteq> [] \<and>
         (\<lambda>hdr. Some ''alice'') hdr = Some usr \<and>
         Some ''cs_test_1'' = Some sid \<and> sid \<noteq> [] \<and> Some ''sk_test'' = Some key \<and> key \<noteq> [] \<and>
         (\<lambda>sid. Some ''paid'') sid = Some ''paid'')"
    by simp
  from confirm_gated_by_page_state_only [where pg = page_held and net = all_up
        and st = store_held and req_method = "''POST''" and authHeader = "Some ''Bearer token''"
        and getUser = "\<lambda>hdr. Some ''alice''" and sessionId = "Some ''cs_test_1''"
        and stripeSecretKey = "Some ''sk_test''" and retrieve = "\<lambda>sid. Some ''paid''"]
       confirm_gated_by_page_state_only [where pg = page0]
       s n u e x v
  show ?thesis by simp
qed

section \<open>The countdown\<close>

text \<open>
  C7, evaluated on the code. The hold acquired at clock 1000 is stored with deadline
  421000, and the slot object the page keeps as \<open>heldSlot\<close> carries no deadline. The
  countdown gets \<open>expiresAt\<close> computed from the clock of the render: 421350 for a render
  at 1350, and 620000 for a later render at 200000.
\<close>

theorem countdown_deadline_not_the_hold_deadline:
  "map hold_expires_at (booking_slots (fst (handleSlotSelect all_up 1000 slot_a (store0, page0))))
     = [Some 421000, None] \<and>
   heldSlot (snd (handleSlotSelect all_up 1000 slot_a (store0, page0))) = Some slot_a \<and>
   hold_expires_at slot_a = None \<and>
   expiresAt 1350 (snd (handleSlotSelect all_up 1000 slot_a (store0, page0))) = Some 421350 \<and>
   expiresAt 200000 (snd (handleSlotSelect all_up 1000 slot_a (store0, page0))) = Some 620000"
  by (simp add: expiresAt_def hold_matches_def holdSlot_reachable handleSlotSelect_def
      example_defs)

end
